theory Spec2Isabelle
  imports Complex_Main
begin

section \<open>Effects shared by the page handlers\<close>

text \<open>
  The handlers of the pages are React event handlers: they call state setters, wait on
  timers and navigate with the router. State setters become updates of a record that is
  passed along; what a handler does to the world outside the component is logged, in
  order, as a list of effects.
\<close>

datatype effect =
    Sleep nat                \<comment> \<open>\<open>await new Promise(resolve => setTimeout(resolve, ms))\<close>\<close>
  | RouterPush string        \<comment> \<open>\<open>router.push(path)\<close>\<close>
  | RouterPushAfter nat string  \<comment> \<open>\<open>setTimeout(() => router.push(path), ms)\<close>\<close>
  | HttpRequest string string   \<comment> \<open>a request to a URL with a body; no handler under src/ issues one\<close>

fun isHttpRequest :: "effect \<Rightarrow> bool" where
  "isHttpRequest (HttpRequest url body) = True"
| "isHttpRequest e = False"

text \<open>
  A statement sequence inside \<open>try\<close> either completes normally or throws; the state
  setters called before the throw have taken effect, so both completions carry the state.
\<close>

datatype thrown = Error string | NonError
  \<comment> \<open>\<open>new Error(message)\<close>, or any thrown value that is not an \<open>Error\<close> instance\<close>

datatype 's completion = Normal 's | Throw thrown 's

fun andThen :: "'s completion \<Rightarrow> ('s \<Rightarrow> 's completion) \<Rightarrow> 's completion" where
  "andThen (Normal s) f = f s"
| "andThen (Throw e s) f = Throw e s"

fun tryCatch :: "'s completion \<Rightarrow> (thrown \<Rightarrow> 's \<Rightarrow> 's) \<Rightarrow> 's" where
  "tryCatch (Normal s) h = s"
| "tryCatch (Throw e s) h = h e s"

text \<open>A handler in flight: the component state and the effects logged so far.\<close>

type_synonym 's run = "'s \<times> effect list"

definition setState :: "('s \<Rightarrow> 's) \<Rightarrow> 's \<times> 'l \<Rightarrow> ('s \<times> 'l) completion" where
  "setState f r = Normal (f (fst r), snd r)"

definition perform :: "effect \<Rightarrow> 's run \<Rightarrow> 's run completion" where
  "perform e r = Normal (fst r, snd r @ [e])"

text \<open>
  A handler that waits between its state changes shows the states in between. Its log
  keeps, with each effect, the component state at the moment of the effect: for a wait,
  the state the page shows while waiting.
\<close>

type_synonym 's shown_run = "'s \<times> ('s \<times> effect) list"

definition performShown :: "effect \<Rightarrow> 's shown_run \<Rightarrow> 's shown_run completion" where
  "performShown e r = Normal (fst r, snd r @ [(fst r, e)])"

section \<open>Resume upload page\<close>

text \<open>
  \<open>config\<close> is imported from \<open>@/lib/config\<close>, which is not among the sources; the
  three fields of \<open>config.upload\<close> that the page reads are a parameter. Sizes are byte
  counts. The page renders \<open>MAX_SIZE\<close>, a JavaScript number, inside a template literal;
  the number-to-string conversion is a parameter as well.
\<close>

record upload_config =
  acceptedExtensions :: "string list"
  maxSize :: nat
  acceptedTypes :: "string list"

record File =
  file_name :: string
  file_type :: string
  file_size :: nat

fun join :: "string \<Rightarrow> string list \<Rightarrow> string" where
  "join sep [] = []"
| "join sep [x] = x"
| "join sep (x # y # ys) = x @ sep @ join sep (y # ys)"

definition ACCEPTED_FILES :: "upload_config \<Rightarrow> string" where
  "ACCEPTED_FILES cfg = join '', '' (acceptedExtensions cfg)"

definition MAX_SIZE :: "upload_config \<Rightarrow> real" where
  "MAX_SIZE cfg = real (maxSize cfg) / (1024 * 1024)"

definition ACCEPTED_TYPES :: "upload_config \<Rightarrow> string list" where
  "ACCEPTED_TYPES cfg = acceptedTypes cfg"

datatype upload_state = Idle | Uploading | Processing | Completed | Failed
  \<comment> \<open>\<open>'idle' | 'uploading' | 'processing' | 'completed' | 'error'\<close>\<close>

text \<open>
  The component state. \<open>fileInputRef\<close> is \<open>fileInputRef.current\<close>: \<open>None\<close> when no
  input element is mounted, otherwise the element's \<open>value\<close>. The \<open>error\<close> state of
  this page is the field \<open>uploadError\<close>.
\<close>

record upload_page =
  selectedFile :: "File option"
  uploadState :: upload_state
  uploadProgress :: nat
  uploadError :: string
  processingStatus :: string
  fileInputRef :: "string option"

definition upload_initial :: "string option \<Rightarrow> upload_page" where
  "upload_initial inp = \<lparr> selectedFile = None, uploadState = Idle, uploadProgress = 0,
     uploadError = [], processingStatus = [], fileInputRef = inp \<rparr>"

definition array_includes :: "'a list \<Rightarrow> 'a \<Rightarrow> bool" where
  \<comment> \<open>\<open>Array.prototype.includes\<close>; on strings its comparison is equality\<close>
  "array_includes xs x = (x \<in> set xs)"

definition fileTypeMessage :: "upload_config \<Rightarrow> string" where
  "fileTypeMessage cfg = ''Please upload a valid file type: '' @ ACCEPTED_FILES cfg"

definition fileSizeMessage :: "(real \<Rightarrow> string) \<Rightarrow> upload_config \<Rightarrow> string" where
  "fileSizeMessage numberToString cfg =
     ''File size must be less than '' @ numberToString (MAX_SIZE cfg) @ ''MB''"

definition validateFile :: "(real \<Rightarrow> string) \<Rightarrow> upload_config \<Rightarrow> File \<Rightarrow> string option" where
  "validateFile numberToString cfg f =
     (if \<not> array_includes (ACCEPTED_TYPES cfg) (file_type f) then Some (fileTypeMessage cfg)
      else if file_size f > maxSize cfg then Some (fileSizeMessage numberToString cfg)
      else None)"

text \<open>JavaScript truthiness of a \<open>string | null\<close>: \<open>null\<close> and the empty string are falsy.\<close>

fun truthy :: "string option \<Rightarrow> bool" where
  "truthy None = False"
| "truthy (Some s) = (s \<noteq> [])"

definition handleFileSelect ::
  "(real \<Rightarrow> string) \<Rightarrow> upload_config \<Rightarrow> File \<Rightarrow> upload_page \<Rightarrow> upload_page" where
  "handleFileSelect numberToString cfg f s =
     (let validationError = validateFile numberToString cfg f;
          selected = s\<lparr> selectedFile := Some f, uploadError := [], uploadState := Idle \<rparr>
      in case validationError of
           None \<Rightarrow> selected
         | Some msg \<Rightarrow> if truthy validationError then s\<lparr> uploadError := msg \<rparr> else selected)"

definition removeFile :: "upload_page \<Rightarrow> upload_page" where
  "removeFile s =
     (let s1 = s\<lparr> selectedFile := None, uploadState := Idle, uploadError := [] \<rparr> in
      case fileInputRef s1 of
        None \<Rightarrow> s1
      | Some v \<Rightarrow> s1\<lparr> fileInputRef := Some [] \<rparr>)"

text \<open>
  What the component renders from its state: the drop zone or the preview of the selected
  file, the error alert (\<open>error && ...\<close>), the progress panel
  (\<open>uploadState !== 'idle' && ...\<close>, with the status line only when
  \<open>processingStatus\<close> is non-empty), the analyze button
  (\<open>file && uploadState === 'idle'\<close>) and the remove button (\<open>file && ...\<close>,
  \<open>disabled\<close> unless idle). Static markup is left out.
\<close>

record upload_view =
  dropZone :: bool
  filePreview :: "File option"
  errorAlert :: "string option"
  progressPanel :: "(upload_state \<times> nat \<times> string option) option"
  analyzeButton :: bool
  removeButtonDisabled :: "bool option"

definition render :: "upload_page \<Rightarrow> upload_view" where
  "render s =
     \<lparr> dropZone = (selectedFile s = None),
       filePreview = selectedFile s,
       errorAlert = (if uploadError s \<noteq> [] then Some (uploadError s) else None),
       progressPanel =
         (if uploadState s \<noteq> Idle
          then Some (uploadState s, uploadProgress s,
                     if processingStatus s \<noteq> [] then Some (processingStatus s) else None)
          else None),
       analyzeButton = (selectedFile s \<noteq> None \<and> uploadState s = Idle),
       removeButtonDisabled =
         (if selectedFile s \<noteq> None then Some (uploadState s \<noteq> Idle) else None) \<rparr>"

text \<open>
  \<open>uploadFile\<close>. The two loops of the source are \<open>progressLoop\<close> (the counter runs
  from 0 in steps of 10 while it is at most 100) and \<open>processingLoop\<close> (over the list
  of processing steps). The \<open>catch\<close> block is kept as the handler of \<open>tryCatch\<close>.
  The handler waits after every step of either loop, so its log is one of shown states.
\<close>

function progressLoop :: "nat \<Rightarrow> upload_page shown_run \<Rightarrow> upload_page shown_run completion" where
  "progressLoop progress r =
     (if progress \<le> 100 then
        (case andThen (setState (\<lambda>s. s\<lparr> uploadProgress := progress \<rparr>) r) (performShown (Sleep 200)) of
           Normal r' \<Rightarrow> progressLoop (progress + 10) r'
         | Throw e r' \<Rightarrow> Throw e r')
      else Normal r)"
  by pat_completeness auto
termination
  by (relation "measure (\<lambda>(progress, r). 101 - progress)") auto

definition processingSteps :: "string list" where
  "processingSteps =
     [''Extracting text and structure...'',
      ''Identifying key skills and experience...'',
      ''Analyzing job relevance...'',
      ''Generating optimization insights...'',
      ''Creating ATS-friendly format...'']"

fun processingLoop :: "string list \<Rightarrow> upload_page shown_run \<Rightarrow> upload_page shown_run completion" where
  "processingLoop [] r = Normal r"
| "processingLoop (step # steps) r =
     (case andThen (setState (\<lambda>s. s\<lparr> processingStatus := step \<rparr>) r) (performShown (Sleep 1500)) of
        Normal r' \<Rightarrow> processingLoop steps r'
      | Throw e r' \<Rightarrow> Throw e r')"

definition uploadBody :: "upload_page shown_run \<Rightarrow> upload_page shown_run completion" where
  "uploadBody r =
     andThen (progressLoop 0 r) (\<lambda>r.
     andThen (setState (\<lambda>s. s\<lparr> uploadState := Processing \<rparr>) r) (\<lambda>r.
     andThen (setState (\<lambda>s. s\<lparr> processingStatus := ''Analyzing your resume with AI...'' \<rparr>) r) (\<lambda>r.
     andThen (processingLoop processingSteps r) (\<lambda>r.
     andThen (setState (\<lambda>s. s\<lparr> uploadState := Completed \<rparr>) r) (\<lambda>r.
     andThen (setState (\<lambda>s. s\<lparr> processingStatus := ''Resume processed successfully!'' \<rparr>) r) (\<lambda>r.
     performShown (RouterPushAfter 2000 ''/resume/analyze'') r))))))"

definition uploadCatch :: "thrown \<Rightarrow> upload_page shown_run \<Rightarrow> upload_page shown_run" where
  "uploadCatch err r =
     ((fst r)\<lparr> uploadState := Failed, uploadError := ''Upload failed. Please try again.'' \<rparr>, snd r)"

definition uploadFile :: "upload_page \<Rightarrow> upload_page shown_run" where
  "uploadFile s =
     (case selectedFile s of
        None \<Rightarrow> (s, [])
      | Some f \<Rightarrow>
          tryCatch
            (uploadBody (s\<lparr> uploadState := Uploading, uploadProgress := 0, uploadError := [] \<rparr>, []))
            uploadCatch)"

section \<open>Registration page\<close>

text \<open>
  \<open>UserRole\<close> is imported from \<open>@/lib/types\<close>, which is not among the sources; its
  values are the two roles the page passes to \<open>handleRoleSelect\<close> (and the two the
  \<open>users.role\<close> column admits).
\<close>

datatype UserRole = Applicant | Recruiter

datatype register_step = Role | Details
  \<comment> \<open>\<open>'role' | 'details'\<close>\<close>

record form_data =
  firstName :: string
  lastName :: string
  email :: string
  password :: string
  confirmPassword :: string

text \<open>The \<open>error\<close> state of this page is the field \<open>registerError\<close>.\<close>

record register_page =
  step :: register_step
  isLoading :: bool
  showPassword :: bool
  registerError :: string
  selectedRole :: "UserRole option"
  formData :: form_data

definition register_initial :: register_page where
  "register_initial = \<lparr> step = Role, isLoading = False, showPassword = False,
     registerError = [], selectedRole = None,
     formData = \<lparr> firstName = [], lastName = [], email = [], password = [],
       confirmPassword = [] \<rparr> \<rparr>"

definition handleRoleSelect :: "UserRole \<Rightarrow> register_page \<Rightarrow> register_page" where
  "handleRoleSelect role s = s\<lparr> selectedRole := Some role \<rparr>"

definition handleNext :: "register_page \<Rightarrow> register_page" where
  "handleNext s = (if selectedRole s = None then s else s\<lparr> step := Details \<rparr>)"

definition handleBack :: "register_page \<Rightarrow> register_page" where
  "handleBack s = s\<lparr> step := Role, registerError := [] \<rparr>"

text \<open>
  \<open>handleChange\<close> writes \<open>e.target.value\<close> under the key \<open>e.target.name\<close>; the
  inputs of the form carry the five names of \<open>formData\<close>.
\<close>

datatype form_field = FirstName | LastName | Email | Password | ConfirmPassword

fun setField :: "form_field \<Rightarrow> string \<Rightarrow> form_data \<Rightarrow> form_data" where
  "setField FirstName v prev = prev\<lparr> firstName := v \<rparr>"
| "setField LastName v prev = prev\<lparr> lastName := v \<rparr>"
| "setField Email v prev = prev\<lparr> email := v \<rparr>"
| "setField Password v prev = prev\<lparr> password := v \<rparr>"
| "setField ConfirmPassword v prev = prev\<lparr> confirmPassword := v \<rparr>"

definition handleChange :: "form_field \<Rightarrow> string \<Rightarrow> register_page \<Rightarrow> register_page" where
  "handleChange name v s =
     (let s1 = s\<lparr> formData := setField name v (formData s) \<rparr>
      in if registerError s \<noteq> [] then s1\<lparr> registerError := [] \<rparr> else s1)"

text \<open>
  \<open>validateForm\<close> returns nothing and may throw: \<open>Inl\<close> is the thrown value,
  \<open>Inr ()\<close> the normal return. \<open>!s\<close> on a string holds exactly for the empty
  string. A string stands for the sequence of its code units, so \<open>length\<close> is the
  \<open>.length\<close> of JavaScript.
\<close>

definition validateForm :: "form_data \<Rightarrow> thrown + unit" where
  "validateForm fd =
     (if firstName fd = [] \<or> lastName fd = [] then Inl (Error ''Please fill in your full name'')
      else if email fd = [] then Inl (Error ''Please enter your email address'')
      else if password fd = [] then Inl (Error ''Please enter a password'')
      else if length (password fd) < 8 then Inl (Error ''Password must be at least 8 characters'')
      else if password fd \<noteq> confirmPassword fd then Inl (Error ''Passwords do not match'')
      else Inr ())"

definition submitBody :: "register_page run \<Rightarrow> register_page run completion" where
  "submitBody r =
     (case validateForm (formData (fst r)) of
        Inl err \<Rightarrow> Throw err r
      | Inr u \<Rightarrow> andThen (perform (Sleep 2000) r) (perform (RouterPush ''/dashboard'')))"

fun submitCatch :: "thrown \<Rightarrow> register_page run \<Rightarrow> register_page run" where
  "submitCatch (Error message) r = ((fst r)\<lparr> registerError := message \<rparr>, snd r)"
| "submitCatch NonError r =
     ((fst r)\<lparr> registerError := ''Registration failed. Please try again.'' \<rparr>, snd r)"

definition handleSubmit :: "register_page \<Rightarrow> register_page run" where
  "handleSubmit s =
     (let r = tryCatch (submitBody (s\<lparr> isLoading := True, registerError := [] \<rparr>, [])) submitCatch
      in ((fst r)\<lparr> isLoading := False \<rparr>, snd r))"

text \<open>
  The events of the page, one per handler (the password toggle is the inline
  \<open>setShowPassword(!showPassword)\<close>), and the state after a sequence of them. A handler
  runs to its end before the next event; \<open>e.preventDefault()\<close> in \<open>handleSubmit\<close>
  touches neither the state nor the effects logged.
\<close>

datatype register_event =
    RoleSelect UserRole
  | Next
  | Back
  | Change form_field string
  | ToggleShowPassword
  | Submit

fun fire :: "register_page \<Rightarrow> register_event \<Rightarrow> register_page" where
  "fire s (RoleSelect role) = handleRoleSelect role s"
| "fire s Next = handleNext s"
| "fire s Back = handleBack s"
| "fire s (Change name v) = handleChange name v s"
| "fire s ToggleShowPassword = s\<lparr> showPassword := \<not> showPassword s \<rparr>"
| "fire s Submit = fst (handleSubmit s)"

definition after :: "register_event list \<Rightarrow> register_page" where
  "after events = foldl fire register_initial events"

text \<open>
  The checks of \<open>validateForm\<close> as the specification lists them, in its order, each
  with the message of its error; \<open>firstFailing\<close> is the message of the first check that
  fails.
\<close>

definition registrationChecks :: "((form_data \<Rightarrow> bool) \<times> string) list" where
  "registrationChecks =
     [(\<lambda>fd. firstName fd = [] \<or> lastName fd = [], ''Please fill in your full name''),
      (\<lambda>fd. email fd = [], ''Please enter your email address''),
      (\<lambda>fd. password fd = [], ''Please enter a password''),
      (\<lambda>fd. length (password fd) < 8, ''Password must be at least 8 characters''),
      (\<lambda>fd. password fd \<noteq> confirmPassword fd, ''Passwords do not match'')]"

definition firstFailing :: "form_data \<Rightarrow> string option" where
  "firstFailing fd = map_option snd (find (\<lambda>check. fst check fd) registrationChecks)"

definition details_has_role :: "register_page \<Rightarrow> bool" where
  "details_has_role s = (step s = Details \<longrightarrow> selectedRole s \<noteq> None)"

section \<open>Dashboard page\<close>

text \<open>
  The interval callback of \<open>DashboardPage\<close> replaces the score by
  \<open>Math.min(95, prev.optimizationScore + Math.random() * 2)\<close>. JavaScript numbers are
  doubles: they are real numbers here, and every arithmetic operation rounds its exact
  result with \<open>fl\<close>, a parameter. \<open>rounding\<close> says what is used of double rounding: it
  is monotone, it leaves a double as it is (the doubles are the fixed points of \<open>fl\<close>),
  integers up to \<open>2 ^ 53\<close> are doubles, and the double of a double of magnitude at most
  1 is a double. \<open>Math.random()\<close> is a parameter too: a double \<open>r\<close> with
  \<open>0 \<le> r < 1\<close>.
\<close>

record user_stats =
  resumesAnalyzed :: nat
  matchesGenerated :: nat
  optimizationScore :: real
  lastActivity :: string

definition mockUser_stats :: user_stats where
  "mockUser_stats = \<lparr> resumesAnalyzed = 3, matchesGenerated = 15, optimizationScore = 87,
     lastActivity = ''2 hours ago'' \<rparr>"

definition tick :: "(real \<Rightarrow> real) \<Rightarrow> real \<Rightarrow> user_stats \<Rightarrow> user_stats" where
  "tick fl random prev =
     prev\<lparr> optimizationScore := min 95 (fl (optimizationScore prev + fl (random * 2))) \<rparr>"

definition statsAfter :: "(real \<Rightarrow> real) \<Rightarrow> real list \<Rightarrow> user_stats" where
  "statsAfter fl randoms = foldl (\<lambda>prev random. tick fl random prev) mockUser_stats randoms"

definition rounding :: "(real \<Rightarrow> real) \<Rightarrow> bool" where
  "rounding fl \<longleftrightarrow>
     (\<forall>x y. x \<le> y \<longrightarrow> fl x \<le> fl y)
     \<and> (\<forall>x. fl (fl x) = fl x)
     \<and> (\<forall>n::int. \<bar>n\<bar> \<le> 2 ^ 53 \<longrightarrow> fl (of_int n) = of_int n)
     \<and> (\<forall>x. fl x = x \<and> \<bar>x\<bar> \<le> 1 \<longrightarrow> fl (x * 2) = x * 2)"

definition isRandom :: "(real \<Rightarrow> real) \<Rightarrow> real \<Rightarrow> bool" where
  "isRandom fl r \<longleftrightarrow> fl r = r \<and> 0 \<le> r \<and> r < 1"

definition score_ok :: "(real \<Rightarrow> real) \<Rightarrow> real \<Rightarrow> bool" where
  "score_ok fl s \<longleftrightarrow> 87 \<le> s \<and> s \<le> 95 \<and> fl s = s"

text \<open>
  The rounding of the doubles themselves: IEEE 754 binary64, round to nearest, ties to
  even. A non-zero \<open>x\<close> with \<open>2 ^ e \<le> \<bar>x\<bar> < 2 ^ (e + 1)\<close> is rounded to a multiple of
  \<open>2 ^ (e - 52)\<close>; below \<open>2 ^ (- 1022)\<close> the spacing stays \<open>2 ^ (- 1074)\<close>
  (subnormal numbers). The exponent is not bounded above: a result beyond the largest
  double, which the format turns into infinity, is outside this function; the numbers of
  the dashboard stay below 128. \<open>representable\<close> describes the doubles: a significand
  of at most 53 bits times a power of two not below \<open>2 ^ (- 1074)\<close>.
\<close>

definition rne :: "real \<Rightarrow> int" where
  "rne x =
     (let f = \<lfloor>x\<rfloor> in
      if x - of_int f < 1/2 then f
      else if 1/2 < x - of_int f then f + 1
      else if even f then f else f + 1)"

definition expo :: "real \<Rightarrow> int" where
  "expo x = max (- 1022) \<lfloor>log 2 \<bar>x\<bar>\<rfloor>"

definition ulp :: "real \<Rightarrow> real" where
  "ulp x = 2 powr (of_int (expo x) - 52)"

definition binary64 :: "real \<Rightarrow> real" where
  "binary64 x = sgn x * of_int (rne (\<bar>x\<bar> / ulp x)) * ulp x"

definition representable :: "real \<Rightarrow> bool" where
  "representable v \<longleftrightarrow>
     (\<exists>k j. \<bar>k\<bar> < 2 ^ 53 \<and> - 1022 \<le> j \<and> v = of_int k * 2 powr (of_int j - 52))"

section \<open>Row-level security of the profiles table\<close>

text \<open>
  The columns of \<open>profiles\<close> (\<open>id\<close> is \<open>profile_id\<close> here); every column but the
  primary key is nullable. JSON columns are kept as text, timestamps as numbers.
\<close>

type_synonym uuid = nat

record profiles_row =
  profile_id :: uuid
  user_id :: "uuid option"
  personal_info :: "string option"
  education :: "string option"
  experience :: "string option"
  skills :: "string option"
  projects :: "string option"
  certifications :: "string option"
  created_at :: "nat option"
  updated_at :: "nat option"

text \<open>
  A policy expression is evaluated for the requester's \<open>auth.uid()\<close> (\<open>NULL\<close> without a
  session) and a row, in SQL's three-valued logic: \<open>None\<close> is \<open>NULL\<close>.
\<close>

type_synonym policy_expr = "uuid option \<Rightarrow> profiles_row \<Rightarrow> bool option"

fun sql_eq :: "'a option \<Rightarrow> 'a option \<Rightarrow> bool option" where
  "sql_eq (Some x) (Some y) = Some (x = y)"
| "sql_eq a b = None"

datatype command = SELECT | INSERT | UPDATE | DELETE

record policy =
  policy_name :: string
  policy_table :: string
  policy_command :: command
  using_expr :: "policy_expr option"
  with_check :: "policy_expr option"

definition owner_expr :: policy_expr where
  \<comment> \<open>\<open>auth.uid() = user_id\<close>\<close>
  "owner_expr auth_uid row = sql_eq auth_uid (user_id row)"

definition profiles_policies :: "policy list" where
  "profiles_policies =
     [\<lparr> policy_name = ''Applicants can view own profile'', policy_table = ''profiles'',
        policy_command = SELECT, using_expr = Some owner_expr, with_check = None \<rparr>,
      \<lparr> policy_name = ''Applicants can update own profile'', policy_table = ''profiles'',
        policy_command = UPDATE, using_expr = Some owner_expr, with_check = None \<rparr>,
      \<lparr> policy_name = ''Applicants can create own profile'', policy_table = ''profiles'',
        policy_command = INSERT, using_expr = None, with_check = Some owner_expr \<rparr>]"

text \<open>
  Modelled from the spec: the engine that applies the policies is the database's
  ("database-provided per-row access control", "policy-gated row visibility"); it is not
  code of the repository, and the schema document has the policies only. What is modelled
  of it is how a table's permissive policies gate a command of a requester:
  \<^item> \<open>enforced\<close> says whether row security is in force for the requester: enabled on
    the table, and the requester does not bypass it. The schema document creates the
    policies and never enables row security on \<open>profiles\<close>, so \<open>enforced\<close> is a
    parameter. Policies that are not enforced gate nothing.
  \<^item> When enforced, an existing row is visible to a command when the \<open>USING\<close>
    expression of some policy for that command is true on it, and a new row is admitted
    when the \<open>WITH CHECK\<close> expression of some policy for the command is true on it; a
    policy without \<open>WITH CHECK\<close> checks new rows with its \<open>USING\<close> expression.
    \<open>NULL\<close> is not true, and with no policy for a command nothing passes.
  \<^item> \<open>SELECT\<close> needs the row visible, \<open>INSERT\<close> needs the new row admitted,
    \<open>UPDATE\<close> needs the row visible as it is and admitted as it becomes.
\<close>

definition passes :: "policy_expr option \<Rightarrow> uuid option \<Rightarrow> profiles_row \<Rightarrow> bool" where
  \<comment> \<open>Modelled from the spec: the database's evaluation of a policy expression on a row\<close>
  "passes e auth_uid row = (case e of None \<Rightarrow> False | Some ex \<Rightarrow> ex auth_uid row = Some True)"

definition check_expr :: "policy \<Rightarrow> policy_expr option" where
  \<comment> \<open>Modelled from the spec: the database's choice of the expression for new rows\<close>
  "check_expr p = (case with_check p of Some ex \<Rightarrow> Some ex | None \<Rightarrow> using_expr p)"

definition row_visible ::
  "bool \<Rightarrow> policy list \<Rightarrow> command \<Rightarrow> uuid option \<Rightarrow> profiles_row \<Rightarrow> bool" where
  \<comment> \<open>Modelled from the spec: the database's gate on existing rows\<close>
  "row_visible enforced ps cmd auth_uid row =
     (if enforced
      then list_ex (\<lambda>p. policy_command p = cmd \<and> passes (using_expr p) auth_uid row) ps
      else True)"

definition row_admitted ::
  "bool \<Rightarrow> policy list \<Rightarrow> command \<Rightarrow> uuid option \<Rightarrow> profiles_row \<Rightarrow> bool" where
  \<comment> \<open>Modelled from the spec: the database's gate on new rows\<close>
  "row_admitted enforced ps cmd auth_uid row =
     (if enforced
      then list_ex (\<lambda>p. policy_command p = cmd \<and> passes (check_expr p) auth_uid row) ps
      else True)"

definition select_allowed :: "bool \<Rightarrow> uuid option \<Rightarrow> profiles_row \<Rightarrow> bool" where
  \<comment> \<open>Modelled from the spec: a \<open>SELECT\<close> of the row under the policies of \<open>profiles\<close>\<close>
  "select_allowed enforced auth_uid row =
     row_visible enforced profiles_policies SELECT auth_uid row"

definition insert_allowed :: "bool \<Rightarrow> uuid option \<Rightarrow> profiles_row \<Rightarrow> bool" where
  \<comment> \<open>Modelled from the spec: an \<open>INSERT\<close> of the row under the policies of \<open>profiles\<close>\<close>
  "insert_allowed enforced auth_uid new =
     row_admitted enforced profiles_policies INSERT auth_uid new"

definition update_allowed ::
  "bool \<Rightarrow> uuid option \<Rightarrow> profiles_row \<Rightarrow> profiles_row \<Rightarrow> bool" where
  \<comment> \<open>Modelled from the spec: an \<open>UPDATE\<close> of \<open>old\<close> to \<open>new\<close> under the policies of \<open>profiles\<close>\<close>
  "update_allowed enforced auth_uid old new =
     (row_visible enforced profiles_policies UPDATE auth_uid old
      \<and> row_admitted enforced profiles_policies UPDATE auth_uid new)"

section \<open>Sample inputs\<close>

definition sample_config :: upload_config where
  "sample_config =
     \<lparr> acceptedExtensions = [''.pdf'', ''.docx''], maxSize = 10485760,
       acceptedTypes = [''application/pdf''] \<rparr>"

definition sample_numberToString :: "real \<Rightarrow> string" where
  "sample_numberToString x = (if x = 10 then ''10'' else ''?'')"

definition sample_pdf :: File where
  "sample_pdf = \<lparr> file_name = ''cv.pdf'', file_type = ''application/pdf'', file_size = 1000 \<rparr>"

definition sample_large_pdf :: File where
  "sample_large_pdf =
     \<lparr> file_name = ''scan.pdf'', file_type = ''application/pdf'', file_size = 20000000 \<rparr>"

definition sample_large_png :: File where
  "sample_large_png =
     \<lparr> file_name = ''photo.png'', file_type = ''image/png'', file_size = 20000000 \<rparr>"

definition sample_upload_page :: upload_page where
  "sample_upload_page =
     \<lparr> selectedFile = Some sample_pdf, uploadState = Completed, uploadProgress = 100,
       uploadError = [], processingStatus = ''Resume processed successfully!'',
       fileInputRef = None \<rparr>"

definition sample_form :: form_data where
  "sample_form =
     \<lparr> firstName = ''John'', lastName = ''Doe'', email = ''john@example.com'',
       password = ''correct horse'', confirmPassword = ''correct horse'' \<rparr>"

definition sample_profile :: profiles_row where
  "sample_profile =
     \<lparr> profile_id = 1, user_id = Some 7, personal_info = None, education = None,
       experience = None, skills = None, projects = None, certifications = None,
       created_at = None, updated_at = None \<rparr>"

section \<open>Properties of the resume upload page\<close>

lemma fileMessages_differ: "fileTypeMessage cfg \<noteq> fileSizeMessage numberToString cfg"
  by (simp add: fileTypeMessage_def fileSizeMessage_def)

lemma validateFile_truthy: "validateFile numberToString cfg f = Some msg \<Longrightarrow> msg \<noteq> []"
  by (auto simp: validateFile_def fileTypeMessage_def fileSizeMessage_def split: if_splits)

text \<open>
  C1. \<open>validateFile\<close> returns a message exactly when the file's MIME type is not among
  the accepted types or its size exceeds the maximum size, and \<open>null\<close> when the type is
  accepted and the size is within the limit. The type is checked first: a file of a type
  that is not accepted gets the file-type message whatever its size, a file of an
  accepted type that is too large gets the size message, and the two messages differ.
\<close>

theorem validateFile_spec:
  "(validateFile numberToString cfg f \<noteq> None \<longleftrightarrow>
      file_type f \<notin> set (acceptedTypes cfg) \<or> maxSize cfg < file_size f)
   \<and> (file_type f \<in> set (acceptedTypes cfg) \<and> file_size f \<le> maxSize cfg \<longrightarrow>
        validateFile numberToString cfg f = None)
   \<and> (file_type f \<notin> set (acceptedTypes cfg) \<longrightarrow>
        validateFile numberToString cfg f = Some (fileTypeMessage cfg))
   \<and> (file_type f \<in> set (acceptedTypes cfg) \<and> maxSize cfg < file_size f \<longrightarrow>
        validateFile numberToString cfg f = Some (fileSizeMessage numberToString cfg))
   \<and> fileTypeMessage cfg \<noteq> fileSizeMessage numberToString cfg"
  by (simp add: validateFile_def ACCEPTED_TYPES_def array_includes_def fileMessages_differ)

theorem validateFile_spec_witness:
  "validateFile sample_numberToString sample_config sample_large_png
     = Some ''Please upload a valid file type: .pdf, .docx''
   \<and> validateFile sample_numberToString sample_config sample_large_pdf
     = Some ''File size must be less than 10MB''
   \<and> validateFile sample_numberToString sample_config sample_pdf = None"
  using validateFile_spec [of sample_numberToString sample_config sample_large_png]
    validateFile_spec [of sample_numberToString sample_config sample_large_pdf]
    validateFile_spec [of sample_numberToString sample_config sample_pdf]
  by (simp add: sample_config_def sample_large_png_def sample_large_pdf_def sample_pdf_def
      sample_numberToString_def fileTypeMessage_def fileSizeMessage_def ACCEPTED_FILES_def
      MAX_SIZE_def)

text \<open>
  C4. When \<open>validateFile\<close> rejects the selected file, \<open>handleFileSelect\<close> changes
  nothing but the error message, which becomes the validation message: the file selected
  before, the upload state and the upload progress stay as they were. When
  \<open>validateFile\<close> accepts the file, it becomes the selected file, the error is cleared
  and the upload state is \<open>'idle'\<close>.
\<close>

theorem handleFileSelect_atomic:
  "(validateFile numberToString cfg f = Some msg \<longrightarrow>
      handleFileSelect numberToString cfg f s = s\<lparr> uploadError := msg \<rparr>
      \<and> uploadError (handleFileSelect numberToString cfg f s) = msg
      \<and> selectedFile (handleFileSelect numberToString cfg f s) = selectedFile s
      \<and> uploadState (handleFileSelect numberToString cfg f s) = uploadState s
      \<and> uploadProgress (handleFileSelect numberToString cfg f s) = uploadProgress s)
   \<and> (validateFile numberToString cfg f = None \<longrightarrow>
      selectedFile (handleFileSelect numberToString cfg f s) = Some f
      \<and> uploadError (handleFileSelect numberToString cfg f s) = []
      \<and> uploadState (handleFileSelect numberToString cfg f s) = Idle)"
  by (auto simp: handleFileSelect_def Let_def dest: validateFile_truthy)

theorem handleFileSelect_atomic_witness:
  "handleFileSelect sample_numberToString sample_config sample_large_pdf sample_upload_page
     = sample_upload_page\<lparr> uploadError := ''File size must be less than 10MB'' \<rparr>
   \<and> selectedFile (handleFileSelect sample_numberToString sample_config sample_large_pdf
        sample_upload_page) = Some sample_pdf
   \<and> uploadState (handleFileSelect sample_numberToString sample_config sample_large_pdf
        sample_upload_page) = Completed
   \<and> selectedFile (handleFileSelect sample_numberToString sample_config sample_pdf
        (upload_initial (Some ''C:/fakepath/cv.pdf''))) = Some sample_pdf
   \<and> uploadState (handleFileSelect sample_numberToString sample_config sample_pdf
        (upload_initial (Some ''C:/fakepath/cv.pdf''))) = Idle"
proof -
  have rejected: "validateFile sample_numberToString sample_config sample_large_pdf
      = Some ''File size must be less than 10MB''"
    by (simp add: validateFile_def ACCEPTED_TYPES_def array_includes_def sample_config_def
        sample_large_pdf_def fileSizeMessage_def MAX_SIZE_def sample_numberToString_def)
  have accepted: "validateFile sample_numberToString sample_config sample_pdf = None"
    by (simp add: validateFile_def ACCEPTED_TYPES_def array_includes_def sample_config_def
        sample_pdf_def)
  show ?thesis
    using rejected accepted
      handleFileSelect_atomic [of sample_numberToString sample_config sample_large_pdf
        "''File size must be less than 10MB''" sample_upload_page]
      handleFileSelect_atomic [of sample_numberToString sample_config sample_pdf
        "[]" "upload_initial (Some ''C:/fakepath/cv.pdf'')"]
    by (simp add: sample_upload_page_def)
qed

text \<open>
  C9. After \<open>removeFile\<close>, whatever the state before, no file is selected, the upload
  state is \<open>'idle'\<close>, the error message is empty, and the value of a mounted file input
  is the empty string (with no input mounted there is none to clear). The page then
  renders as it does in its initial state.
\<close>

theorem removeFile_resets:
  "selectedFile (removeFile s) = None
   \<and> uploadState (removeFile s) = Idle
   \<and> uploadError (removeFile s) = []
   \<and> fileInputRef (removeFile s) = map_option (\<lambda>v. []) (fileInputRef s)
   \<and> fileInputRef (removeFile s) \<in> {None, Some []}
   \<and> render (removeFile s) = render (upload_initial inp)"
  by (simp add: removeFile_def Let_def render_def upload_initial_def split: option.split)

theorem removeFile_resets_witness:
  "removeFile sample_upload_page
     = \<lparr> selectedFile = None, uploadState = Idle, uploadProgress = 100, uploadError = [],
         processingStatus = ''Resume processed successfully!'', fileInputRef = None \<rparr>
   \<and> fileInputRef (removeFile (sample_upload_page\<lparr> fileInputRef := Some ''C:/fakepath/cv.pdf'' \<rparr>))
       = Some []
   \<and> render (removeFile sample_upload_page) = render (upload_initial None)"
  using removeFile_resets [of sample_upload_page None]
    removeFile_resets [of "sample_upload_page\<lparr> fileInputRef := Some ''C:/fakepath/cv.pdf'' \<rparr>" None]
  by (simp add: removeFile_def sample_upload_page_def)

lemma progressLoop_0:
  "progressLoop 0 (s, es) =
     Normal (s\<lparr> uploadProgress := 100 \<rparr>,
             es @ map (\<lambda>progress. (s\<lparr> uploadProgress := progress \<rparr>, Sleep 200))
                    [0, 10, 20, 30, 40, 50, 60, 70, 80, 90, 100])"
  by (simp add: setState_def performShown_def)

lemma processingLoop_steps:
  "processingLoop processingSteps (s, es) =
     Normal (s\<lparr> processingStatus := ''Creating ATS-friendly format...'' \<rparr>,
             es @ map (\<lambda>step. (s\<lparr> processingStatus := step \<rparr>, Sleep 1500)) processingSteps)"
  by (simp add: processingSteps_def setState_def performShown_def)

lemma uploadBody_result:
  "uploadBody (s, es) =
     Normal (s\<lparr> uploadProgress := 100, uploadState := Completed,
                processingStatus := ''Resume processed successfully!'' \<rparr>,
             es @ map (\<lambda>progress. (s\<lparr> uploadProgress := progress \<rparr>, Sleep 200))
                    [0, 10, 20, 30, 40, 50, 60, 70, 80, 90, 100]
               @ map (\<lambda>step. (s\<lparr> uploadProgress := 100, uploadState := Processing,
                                processingStatus := step \<rparr>, Sleep 1500)) processingSteps
               @ [(s\<lparr> uploadProgress := 100, uploadState := Completed,
                      processingStatus := ''Resume processed successfully!'' \<rparr>,
                   RouterPushAfter 2000 ''/resume/analyze'')])"
  by (simp add: uploadBody_def progressLoop_0 processingLoop_steps setState_def
      performShown_def del: progressLoop.simps)

text \<open>
  C3, as the code has it. \<open>uploadFile\<close> sends nothing: no HTTP request is among its
  effects. With no file selected it does nothing. With a file selected it clears the
  error and, in state \<open>'uploading'\<close>, shows the progress 0, 10, ..., 100, waiting 200 ms
  at each value; then, in state \<open>'processing'\<close> with progress 100, it shows the five
  processing steps in their order, waiting 1500 ms at each; and it always ends in state
  \<open>'completed'\<close> with progress 100, an empty error and the status
  \<open>Resume processed successfully!\<close>, where it schedules the navigation to
  \<open>/resume/analyze\<close> after 2000 ms.
\<close>

theorem uploadFile_simulated:
  "(selectedFile s = None \<longrightarrow> uploadFile s = (s, []))
   \<and> (selectedFile s \<noteq> None \<longrightarrow>
        uploadFile s =
          (s\<lparr> uploadState := Completed, uploadProgress := 100, uploadError := [],
              processingStatus := ''Resume processed successfully!'' \<rparr>,
           map (\<lambda>progress.
                  (s\<lparr> uploadState := Uploading, uploadProgress := progress, uploadError := [] \<rparr>,
                   Sleep 200))
               [0, 10, 20, 30, 40, 50, 60, 70, 80, 90, 100]
           @ map (\<lambda>step.
                  (s\<lparr> uploadState := Processing, uploadProgress := 100, uploadError := [],
                      processingStatus := step \<rparr>,
                   Sleep 1500))
               [''Extracting text and structure...'',
                ''Identifying key skills and experience...'',
                ''Analyzing job relevance...'',
                ''Generating optimization insights...'',
                ''Creating ATS-friendly format...'']
           @ [(s\<lparr> uploadState := Completed, uploadProgress := 100, uploadError := [],
                  processingStatus := ''Resume processed successfully!'' \<rparr>,
               RouterPushAfter 2000 ''/resume/analyze'')]))
   \<and> \<not> list_ex isHttpRequest (map snd (snd (uploadFile s)))"
proof (cases "selectedFile s")
  case None
  then show ?thesis by (simp add: uploadFile_def)
next
  case (Some f)
  then show ?thesis
    by (simp add: uploadFile_def uploadBody_result processingSteps_def)
qed

theorem uploadFile_simulated_witness:
  "uploadFile (upload_initial None) = (upload_initial None, [])
   \<and> map (\<lambda>shown. (uploadState (fst shown), uploadProgress (fst shown), snd shown))
        (take 11 (snd (uploadFile ((upload_initial None)\<lparr> selectedFile := Some sample_large_png \<rparr>))))
     = map (\<lambda>progress. (Uploading, progress, Sleep 200))
        [0, 10, 20, 30, 40, 50, 60, 70, 80, 90, 100]
   \<and> map (\<lambda>shown. (uploadState (fst shown), processingStatus (fst shown), snd shown))
        (drop 11 (snd (uploadFile ((upload_initial None)\<lparr> selectedFile := Some sample_large_png \<rparr>))))
     = [(Processing, ''Extracting text and structure...'', Sleep 1500),
        (Processing, ''Identifying key skills and experience...'', Sleep 1500),
        (Processing, ''Analyzing job relevance...'', Sleep 1500),
        (Processing, ''Generating optimization insights...'', Sleep 1500),
        (Processing, ''Creating ATS-friendly format...'', Sleep 1500),
        (Completed, ''Resume processed successfully!'', RouterPushAfter 2000 ''/resume/analyze'')]
   \<and> uploadState (fst (uploadFile ((upload_initial None)\<lparr> selectedFile := Some sample_large_png \<rparr>)))
       = Completed"
proof -
  let ?s = "(upload_initial None)\<lparr> selectedFile := Some sample_large_png \<rparr>"
  have none: "selectedFile (upload_initial None) = None"
    by (simp add: upload_initial_def)
  have "selectedFile (upload_initial None) = None \<longrightarrow>
      uploadFile (upload_initial None) = (upload_initial None, [])"
    using uploadFile_simulated [of "upload_initial None"] by (rule conjunct1)
  then have idle: "uploadFile (upload_initial None) = (upload_initial None, [])"
    using none by (rule mp)
  have some: "selectedFile ?s \<noteq> None"
    by simp
  note run = uploadFile_simulated [of ?s, THEN conjunct2, THEN conjunct1, THEN mp, OF some]
  show ?thesis
    by (simp add: idle run)
qed

text \<open>
  C3, as the specification states it, fails: for a page with a selected file the effects
  of \<open>uploadFile\<close> contain no HTTP request, and the operation completes.
\<close>

theorem uploadFile_no_request_counterexample:
  "\<not> list_ex isHttpRequest
       (map snd (snd (uploadFile ((upload_initial None)\<lparr> selectedFile := Some sample_pdf \<rparr>))))
   \<and> uploadState (fst (uploadFile ((upload_initial None)\<lparr> selectedFile := Some sample_pdf \<rparr>)))
       = Completed"
  by (simp add: uploadFile_def upload_initial_def uploadBody_result processingSteps_def)

section \<open>Properties of the registration page\<close>

text \<open>
  C2. \<open>validateForm\<close> throws exactly when the first or the last name is empty, the
  email is empty, the password is empty, the password has fewer than 8 characters, or the
  password differs from its confirmation. The checks run in that order: what is thrown is
  an \<open>Error\<close> with the message of the first failing check, and with no failing check
  \<open>validateForm\<close> returns normally.
\<close>

theorem validateForm_spec:
  "(isl (validateForm fd) \<longleftrightarrow>
      firstName fd = [] \<or> lastName fd = [] \<or> email fd = [] \<or> password fd = []
      \<or> length (password fd) < 8 \<or> password fd \<noteq> confirmPassword fd)
   \<and> validateForm fd =
       (case firstFailing fd of None \<Rightarrow> Inr () | Some message \<Rightarrow> Inl (Error message))"
  by (simp add: validateForm_def firstFailing_def registrationChecks_def)

theorem validateForm_spec_witness:
  "validateForm sample_form = Inr ()
   \<and> validateForm (sample_form\<lparr> email := [], password := ''short'' \<rparr>)
       = Inl (Error ''Please enter your email address'')
   \<and> validateForm (sample_form\<lparr> password := ''short'' \<rparr>)
       = Inl (Error ''Password must be at least 8 characters'')"
  using validateForm_spec [of sample_form]
    validateForm_spec [of "sample_form\<lparr> email := [], password := ''short'' \<rparr>"]
    validateForm_spec [of "sample_form\<lparr> password := ''short'' \<rparr>"]
  by (simp add: sample_form_def firstFailing_def registrationChecks_def)

lemma validateForm_throws_Error:
  "validateForm fd = Inl err \<Longrightarrow> \<exists>message. err = Error message"
  by (auto simp: validateForm_def split: if_splits)

lemma handleSubmit_state:
  "fst (handleSubmit s) =
     s\<lparr> isLoading := False,
        registerError := (case validateForm (formData s) of
                            Inl (Error message) \<Rightarrow> message
                          | Inl NonError \<Rightarrow> ''Registration failed. Please try again.''
                          | Inr u \<Rightarrow> []) \<rparr>"
  by (simp add: handleSubmit_def submitBody_def perform_def Let_def
      split: sum.split thrown.split)

text \<open>
  C5. When the form fails validation, \<open>handleSubmit\<close> leaves as the displayed error
  exactly the message of the error \<open>validateForm\<close> threw, performs no navigation (it
  has no effect at all outside the component), and leaves \<open>isLoading\<close> false. When the
  form passes validation, it waits 2000 ms and navigates to \<open>/dashboard\<close>, and
  \<open>isLoading\<close> is false again at the end.
\<close>

theorem handleSubmit_spec:
  "(validateForm (formData s) = Inl err \<longrightarrow>
      err = Error (registerError (fst (handleSubmit s)))
      \<and> snd (handleSubmit s) = []
      \<and> \<not> isLoading (fst (handleSubmit s)))
   \<and> (validateForm (formData s) = Inr () \<longrightarrow>
      snd (handleSubmit s) = [Sleep 2000, RouterPush ''/dashboard'']
      \<and> registerError (fst (handleSubmit s)) = []
      \<and> \<not> isLoading (fst (handleSubmit s)))"
  by (auto simp: handleSubmit_def submitBody_def perform_def Let_def
      dest!: validateForm_throws_Error)

theorem handleSubmit_spec_witness:
  "registerError (fst (handleSubmit (register_initial\<lparr> step := Details,
        selectedRole := Some Applicant \<rparr>))) = ''Please fill in your full name''
   \<and> snd (handleSubmit (register_initial\<lparr> step := Details,
        selectedRole := Some Applicant \<rparr>)) = []
   \<and> \<not> isLoading (fst (handleSubmit (register_initial\<lparr> step := Details,
        selectedRole := Some Applicant \<rparr>)))
   \<and> snd (handleSubmit (register_initial\<lparr> step := Details, selectedRole := Some Applicant,
        formData := sample_form \<rparr>)) = [Sleep 2000, RouterPush ''/dashboard'']"
proof -
  let ?empty = "register_initial\<lparr> step := Details, selectedRole := Some Applicant \<rparr>"
  let ?filled = "register_initial\<lparr> step := Details, selectedRole := Some Applicant,
        formData := sample_form \<rparr>"
  have fails: "validateForm (formData ?empty) = Inl (Error ''Please fill in your full name'')"
    by (simp add: validateForm_def register_initial_def)
  have passes: "validateForm (formData ?filled) = Inr ()"
    by (simp add: validateForm_def sample_form_def)
  have "Error ''Please fill in your full name'' = Error (registerError (fst (handleSubmit ?empty)))
      \<and> snd (handleSubmit ?empty) = [] \<and> \<not> isLoading (fst (handleSubmit ?empty))"
    using fails handleSubmit_spec [of ?empty "Error ''Please fill in your full name''"]
    by blast
  moreover have "snd (handleSubmit ?filled) = [Sleep 2000, RouterPush ''/dashboard'']"
    using passes handleSubmit_spec [of ?filled NonError] by blast
  ultimately show ?thesis
    by (simp only: thrown.inject) simp
qed

lemma step_fire_cases:
  "step (fire s e) \<noteq> step s \<Longrightarrow>
     (e = Next \<and> selectedRole s \<noteq> None \<and> step (fire s e) = Details)
     \<or> (e = Back \<and> step (fire s e) = Role)"
  by (cases e) (auto simp: handleRoleSelect_def handleNext_def handleBack_def handleChange_def
      handleSubmit_state Let_def split: if_splits)

lemma selectedRole_fire:
  "selectedRole (fire s e) = (case e of RoleSelect role \<Rightarrow> Some role | _ \<Rightarrow> selectedRole s)"
  by (cases e) (auto simp: handleRoleSelect_def handleNext_def handleBack_def handleChange_def
      handleSubmit_state Let_def)

text \<open>
  C6. \<open>step\<close> holds \<open>'role'\<close> or \<open>'details'\<close> and nothing else. Of all the handlers of
  the page, only \<open>handleNext\<close> takes \<open>step\<close> from \<open>'role'\<close> to \<open>'details'\<close>, and only
  in a state with a selected role (with a role selected it does advance, with none it
  changes nothing); only \<open>handleBack\<close> takes \<open>step\<close> from \<open>'details'\<close> to \<open>'role'\<close>,
  and \<open>handleBack\<close> always leaves the error message empty.
\<close>

theorem step_toggle:
  "(step s = Role \<or> step s = Details)
   \<and> (step s = Role \<and> step (fire s e) = Details \<longrightarrow> e = Next \<and> selectedRole s \<noteq> None)
   \<and> (step s = Details \<and> step (fire s e) = Role \<longrightarrow> e = Back \<and> registerError (fire s e) = [])
   \<and> (selectedRole s \<noteq> None \<longrightarrow> step (handleNext s) = Details)
   \<and> (selectedRole s = None \<longrightarrow> handleNext s = s)
   \<and> step (handleBack s) = Role \<and> registerError (handleBack s) = []"
proof -
  have two: "step s = Role \<or> step s = Details"
    by (cases "step s") simp_all
  have up: "step s = Role \<and> step (fire s e) = Details \<longrightarrow> e = Next \<and> selectedRole s \<noteq> None"
    using step_fire_cases [of s e] by auto
  have down: "step s = Details \<and> step (fire s e) = Role \<longrightarrow>
      e = Back \<and> registerError (fire s e) = []"
    using step_fire_cases [of s e] by (auto simp: handleBack_def)
  show ?thesis
    using two up down by (simp add: handleNext_def handleBack_def)
qed

theorem step_toggle_witness:
  "step (fire (register_initial\<lparr> selectedRole := Some Recruiter \<rparr>) Next) = Details
   \<and> fire register_initial Next = register_initial
   \<and> step (fire (register_initial\<lparr> step := Details, selectedRole := Some Recruiter,
        registerError := ''Passwords do not match'' \<rparr>) Back) = Role
   \<and> registerError (fire (register_initial\<lparr> step := Details, selectedRole := Some Recruiter,
        registerError := ''Passwords do not match'' \<rparr>) Back) = []"
proof -
  let ?chosen = "register_initial\<lparr> selectedRole := Some Recruiter \<rparr>"
  let ?details = "register_initial\<lparr> step := Details, selectedRole := Some Recruiter,
        registerError := ''Passwords do not match'' \<rparr>"
  have "selectedRole ?chosen \<noteq> None \<longrightarrow> step (handleNext ?chosen) = Details"
    using step_toggle [of ?chosen Next] by blast
  then have advance: "step (handleNext ?chosen) = Details"
    by simp
  have none: "selectedRole register_initial = None"
    by (simp add: register_initial_def)
  have "selectedRole register_initial = None \<longrightarrow> handleNext register_initial = register_initial"
    using step_toggle [of register_initial Next] by blast
  then have refuse: "handleNext register_initial = register_initial"
    using none by (rule mp)
  have goes_back: "step (handleBack ?details) = Role \<and> registerError (handleBack ?details) = []"
    using step_toggle [of ?details Back] by blast
  show ?thesis
    using advance refuse goes_back by simp
qed

lemma details_has_role_fire: "details_has_role s \<Longrightarrow> details_has_role (fire s e)"
  unfolding details_has_role_def
  using step_fire_cases [of s e] selectedRole_fire [of s e]
  by (cases e) auto

lemma details_has_role_foldl:
  "details_has_role s \<Longrightarrow> details_has_role (foldl fire s events)"
  by (induction events arbitrary: s) (simp_all add: details_has_role_fire)

text \<open>
  C10. In every state the page reaches from its initial state by any sequence of its
  handlers, \<open>step = 'details'\<close> implies that a role is selected. \<open>selectedRole\<close> starts
  as \<open>null\<close>; a handler that changes it is \<open>handleRoleSelect\<close> and sets it to a role;
  \<open>handleNext\<close> leaves \<open>step\<close> as it is while no role is selected; and \<open>handleBack\<close>
  leaves \<open>selectedRole\<close> as it is.
\<close>

theorem details_implies_role:
  "selectedRole register_initial = None
   \<and> (step (after events) = Details \<longrightarrow> selectedRole (after events) \<noteq> None)
   \<and> (selectedRole (fire s e) \<noteq> selectedRole s \<longrightarrow>
        (\<exists>role. e = RoleSelect role \<and> selectedRole (fire s e) = Some role))
   \<and> (selectedRole s = None \<longrightarrow> step (handleNext s) = step s)
   \<and> selectedRole (handleBack s) = selectedRole s"
proof -
  have "details_has_role register_initial"
    by (simp add: details_has_role_def register_initial_def)
  then have "details_has_role (after events)"
    unfolding after_def by (rule details_has_role_foldl)
  then have inv: "step (after events) = Details \<longrightarrow> selectedRole (after events) \<noteq> None"
    by (simp add: details_has_role_def)
  have only: "selectedRole (fire s e) \<noteq> selectedRole s \<longrightarrow>
        (\<exists>role. e = RoleSelect role \<and> selectedRole (fire s e) = Some role)"
    using selectedRole_fire [of s e] by (cases e) auto
  show ?thesis
    using inv only by (simp add: register_initial_def handleNext_def handleBack_def)
qed

theorem details_implies_role_witness:
  "step (after [Next, RoleSelect Applicant, Next, Change Email ''a@b.c'', Submit]) = Details
   \<and> selectedRole (after [Next, RoleSelect Applicant, Next, Change Email ''a@b.c'', Submit])
       \<noteq> None
   \<and> step (after [Next]) = Role"
proof -
  let ?events = "[Next, RoleSelect Applicant, Next, Change Email ''a@b.c'', Submit]"
  have details: "step (after ?events) = Details"
    by (simp add: after_def register_initial_def handleNext_def handleRoleSelect_def
        handleChange_def handleSubmit_state)
  have "step (after ?events) = Details \<longrightarrow> selectedRole (after ?events) \<noteq> None"
    using details_implies_role [of ?events register_initial Next] by blast
  then have role: "selectedRole (after ?events) \<noteq> None"
    using details by (rule mp)
  have "step (after [Next]) = Role"
    by (simp add: after_def register_initial_def handleNext_def)
  then show ?thesis
    using details role by simp
qed

section \<open>Properties of the dashboard page\<close>

subsection \<open>The rounding of doubles is a rounding\<close>

lemma rne_of_int: "rne (of_int n) = n"
  by (simp add: rne_def)

lemma rne_bounds: "\<lfloor>x\<rfloor> \<le> rne x \<and> rne x \<le> \<lfloor>x\<rfloor> + 1"
  by (simp add: rne_def Let_def)

lemma rne_mono: "x \<le> y \<Longrightarrow> rne x \<le> rne y"
proof -
  assume le: "x \<le> y"
  then have "\<lfloor>x\<rfloor> \<le> \<lfloor>y\<rfloor>" by (rule floor_mono)
  then consider "\<lfloor>x\<rfloor> < \<lfloor>y\<rfloor>" | "\<lfloor>x\<rfloor> = \<lfloor>y\<rfloor>" by linarith
  then show ?thesis
  proof cases
    case 1
    then show ?thesis using rne_bounds [of x] rne_bounds [of y] by linarith
  next
    case 2
    then show ?thesis using le by (auto simp: rne_def Let_def)
  qed
qed

lemma rne_le: "x \<le> of_int n \<Longrightarrow> rne x \<le> n"
  using rne_mono [of x "of_int n"] by (simp add: rne_of_int)

lemma rne_ge: "of_int n \<le> x \<Longrightarrow> n \<le> rne x"
  using rne_mono [of "of_int n" x] by (simp add: rne_of_int)

lemma rne_nearest:
  assumes "of_int n - 1/2 < x" "x < of_int n + 1/2"
  shows "rne x = n"
proof -
  have "\<lfloor>x\<rfloor> = n \<or> \<lfloor>x\<rfloor> = n - 1"
    using assms by linarith
  then show ?thesis
    using assms by (auto simp: rne_def Let_def)
qed

lemma expo_ge: "- 1022 \<le> expo x"
  by (simp add: expo_def)

lemma ulp_pos: "0 < ulp x"
  by (simp add: ulp_def)

lemma abs_less_top:
  assumes "x \<noteq> 0"
  shows "\<bar>x\<bar> < 2 powr (of_int (expo x) + 1)"
proof -
  have pos: "0 < \<bar>x\<bar>" using assms by simp
  have "\<bar>x\<bar> < 2 powr (of_int \<lfloor>log 2 \<bar>x\<bar>\<rfloor> + 1)"
    using floor_log_eq_powr_iff [of "\<bar>x\<bar>" 2 "\<lfloor>log 2 \<bar>x\<bar>\<rfloor>"] pos by simp
  also have "\<dots> \<le> 2 powr (of_int (expo x) + 1)"
    by (simp add: expo_def)
  finally show ?thesis .
qed

lemma normal_ge:
  assumes "x \<noteq> 0" "- 1022 < expo x"
  shows "2 powr of_int (expo x) \<le> \<bar>x\<bar>"
proof -
  have pos: "0 < \<bar>x\<bar>" using assms by simp
  have "expo x = \<lfloor>log 2 \<bar>x\<bar>\<rfloor>"
    using assms(2) by (simp add: expo_def max_def split: if_splits)
  then show ?thesis
    using floor_log_eq_powr_iff [of "\<bar>x\<bar>" 2 "\<lfloor>log 2 \<bar>x\<bar>\<rfloor>"] pos by simp
qed

lemma expo_le:
  assumes "x \<noteq> 0" "\<bar>x\<bar> < 2 powr (of_int j + 1)" "- 1022 \<le> j"
  shows "expo x \<le> j"
proof -
  have pos: "0 < \<bar>x\<bar>" using assms by simp
  let ?k = "\<lfloor>log 2 \<bar>x\<bar>\<rfloor>"
  have "2 powr of_int ?k \<le> \<bar>x\<bar>"
    using floor_log_eq_powr_iff [of "\<bar>x\<bar>" 2 ?k] pos by simp
  then have "2 powr of_int ?k < (2::real) powr (of_int j + 1)" using assms(2) by linarith
  then have "of_int ?k < (of_int j + 1 :: real)" by simp
  then have "?k \<le> j" by linarith
  then show ?thesis using assms(3) by (simp add: expo_def)
qed

lemma expo_mono:
  assumes "0 < x" "x \<le> y"
  shows "expo x \<le> expo y"
proof -
  have "log 2 \<bar>x\<bar> \<le> log 2 \<bar>y\<bar>" using assms by simp
  then have "\<lfloor>log 2 \<bar>x\<bar>\<rfloor> \<le> \<lfloor>log 2 \<bar>y\<bar>\<rfloor>" by (rule floor_mono)
  then show ?thesis by (simp add: expo_def)
qed

lemma expo_binade:
  assumes "2 powr of_int e \<le> \<bar>x\<bar>" "\<bar>x\<bar> < 2 powr (of_int e + 1)" "- 1022 \<le> e"
  shows "expo x = e"
proof -
  have "0 < \<bar>x\<bar>" using assms(1) powr_gt_zero [of 2 "of_int e"] by linarith
  then have "\<lfloor>log 2 \<bar>x\<bar>\<rfloor> = e"
    using floor_log_eq_powr_iff [of "\<bar>x\<bar>" 2 e] assms by simp
  then show ?thesis using assms(3) by (simp add: expo_def)
qed

lemma powr_top: "(2::real) ^ 53 * 2 powr (a - 52) = 2 powr (a + 1)"
proof -
  have "a + 1 = 53 + (a - 52)" by (simp add: algebra_simps)
  then have "(2::real) powr (a + 1) = 2 powr (53 + (a - 52))" by (simp only:)
  also have "\<dots> = 2 powr 53 * 2 powr (a - 52)" by (rule powr_add)
  finally show ?thesis by simp
qed

lemma powr_52: "(2::real) ^ 52 * 2 powr (a - 52) = 2 powr a"
proof -
  have "a = 52 + (a - 52)" by simp
  then have "(2::real) powr a = 2 powr (52 + (a - 52))" by (simp only:)
  also have "\<dots> = 2 powr 52 * 2 powr (a - 52)" by (rule powr_add)
  finally show ?thesis by simp
qed

lemma powr_double: "2 * (2::real) powr (a - 52) = 2 powr (a + 1 - 52)"
proof -
  have "a + 1 - 52 = 1 + (a - 52)" by (simp add: algebra_simps)
  then have "(2::real) powr (a + 1 - 52) = 2 powr (1 + (a - 52))" by (simp only:)
  also have "\<dots> = 2 powr 1 * 2 powr (a - 52)" by (rule powr_add)
  finally show ?thesis by simp
qed

lemma powr_shift:
  assumes "(i::int) \<le> j"
  shows "(2::real) powr (of_int j - 52) / 2 powr (of_int i - 52) = of_int (2 ^ nat (j - i))"
proof -
  have "(2::real) powr (of_int j - 52) / 2 powr (of_int i - 52)
      = 2 powr ((of_int j - 52) - (of_int i - 52))"
    by (simp add: powr_diff)
  also have "\<dots> = 2 powr real (nat (j - i))"
    using assms by simp
  also have "\<dots> = 2 ^ nat (j - i)"
    by (simp add: powr_realpow)
  finally show ?thesis by simp
qed

lemma binary64_zero: "binary64 0 = 0"
  by (simp add: binary64_def)

lemma binary64_minus: "binary64 (- x) = - binary64 x"
  by (simp add: binary64_def ulp_def expo_def sgn_minus)

lemma binary64_pos: "0 < x \<Longrightarrow> binary64 x = of_int (rne (x / ulp x)) * ulp x"
  by (simp add: binary64_def)

lemma binary64_nonneg: "0 \<le> x \<Longrightarrow> 0 \<le> binary64 x"
proof -
  assume "0 \<le> x"
  moreover have "0 \<le> rne (\<bar>x\<bar> / ulp x)"
    using rne_ge [of 0 "\<bar>x\<bar> / ulp x"] ulp_pos [of x] by simp
  ultimately show ?thesis
    using ulp_pos [of x] by (simp add: binary64_def sgn_real_def)
qed

lemma representableI:
  "\<bar>k\<bar> < 2 ^ 53 \<Longrightarrow> - 1022 \<le> j \<Longrightarrow> v = of_int k * 2 powr (of_int j - 52)
     \<Longrightarrow> representable v"
  unfolding representable_def by blast

lemma representable_fixed:
  assumes "representable v"
  shows "binary64 v = v"
proof (cases "v = 0")
  case True
  then show ?thesis by (simp add: binary64_zero)
next
  case False
  from assms obtain k j where k: "\<bar>k\<bar> < 2 ^ 53" and j: "- 1022 \<le> j"
    and v: "v = of_int k * 2 powr (of_int j - 52)"
    unfolding representable_def by blast
  have "\<bar>v\<bar> = of_int \<bar>k\<bar> * 2 powr (of_int j - 52)"
    by (simp add: v abs_mult)
  also have "\<dots> < 2 ^ 53 * 2 powr (of_int j - 52)"
  proof -
    have "(of_int \<bar>k\<bar> :: real) < of_int (2 ^ 53)" using k by (simp only: of_int_less_iff)
    then show ?thesis by simp
  qed
  also have "\<dots> = 2 powr (of_int j + 1)"
    by (rule powr_top)
  finally have top: "\<bar>v\<bar> < 2 powr (of_int j + 1)" .
  have le: "expo v \<le> j" using False top j by (rule expo_le)
  have "\<bar>v\<bar> / ulp v = of_int \<bar>k\<bar> * (2 powr (of_int j - 52) / 2 powr (of_int (expo v) - 52))"
    by (simp add: v abs_mult ulp_def)
  also have "\<dots> = of_int (\<bar>k\<bar> * 2 ^ nat (j - expo v))"
    by (simp add: powr_shift [OF le])
  finally have "rne (\<bar>v\<bar> / ulp v) = \<bar>k\<bar> * 2 ^ nat (j - expo v)"
    by (simp only: rne_of_int)
  then have "of_int (rne (\<bar>v\<bar> / ulp v)) * ulp v
      = of_int \<bar>k\<bar> * (of_int (2 ^ nat (j - expo v)) * 2 powr (of_int (expo v) - 52))"
    by (simp add: ulp_def)
  also have "of_int (2 ^ nat (j - expo v)) * 2 powr (of_int (expo v) - 52)
      = (2::real) powr (of_int j - 52)"
    using powr_shift [OF le] by (simp add: field_simps)
  finally have "of_int (rne (\<bar>v\<bar> / ulp v)) * ulp v = \<bar>v\<bar>"
    by (simp add: v abs_mult)
  then have "binary64 v = sgn v * \<bar>v\<bar>"
    by (simp add: binary64_def mult.assoc)
  then show ?thesis by (simp add: sgn_real_def)
qed

lemma rne_abs_bound:
  assumes "x \<noteq> 0"
  shows "0 \<le> rne (\<bar>x\<bar> / ulp x) \<and> rne (\<bar>x\<bar> / ulp x) \<le> 2 ^ 53"
proof -
  have "\<bar>x\<bar> < 2 powr (of_int (expo x) + 1)" using assms by (rule abs_less_top)
  also have "\<dots> = 2 ^ 53 * ulp x"
    unfolding ulp_def by (rule powr_top [symmetric])
  finally have "\<bar>x\<bar> / ulp x < 2 ^ 53"
    using ulp_pos [of x] by (simp add: field_simps)
  then have "\<bar>x\<bar> / ulp x \<le> of_int (2 ^ 53)" by simp
  then have "rne (\<bar>x\<bar> / ulp x) \<le> 2 ^ 53" by (rule rne_le)
  moreover have "0 \<le> rne (\<bar>x\<bar> / ulp x)"
    using rne_ge [of 0 "\<bar>x\<bar> / ulp x"] ulp_pos [of x] by simp
  ultimately show ?thesis by simp
qed

lemma binary64_representable: "representable (binary64 x)"
proof (cases "x = 0")
  case True
  have "\<bar>0\<bar> < (2::int) ^ 53" "- 1022 \<le> (0::int)"
    "(0::real) = of_int 0 * 2 powr (of_int 0 - 52)" by simp_all
  then have "representable 0" by (rule representableI)
  then show ?thesis using True by (simp add: binary64_zero)
next
  case False
  let ?m = "rne (\<bar>x\<bar> / ulp x)"
  let ?s = "if x < 0 then - 1 else (1::int)"
  have m: "0 \<le> ?m \<and> ?m \<le> 2 ^ 53" using False by (rule rne_abs_bound)
  have val: "binary64 x = of_int (?s * ?m) * 2 powr (of_int (expo x) - 52)"
    using False by (simp add: binary64_def ulp_def sgn_real_def)
  show ?thesis
  proof (cases "?m = 2 ^ 53")
    case True
    have "binary64 x = of_int (?s * 2 ^ 52) * 2 powr (of_int (expo x + 1) - 52)"
      using powr_double [of "of_int (expo x)"] by (simp add: val True)
    moreover have "\<bar>?s * 2 ^ 52\<bar> < (2::int) ^ 53" by simp
    moreover have "- 1022 \<le> expo x + 1" using expo_ge [of x] by simp
    ultimately show ?thesis unfolding representable_def by blast
  next
    case False
    have "\<bar>?s * ?m\<bar> = ?m" using m by (simp add: abs_mult)
    then have "\<bar>?s * ?m\<bar> < 2 ^ 53" using m False by linarith
    then show ?thesis
      unfolding representable_def using val expo_ge [of x] by blast
  qed
qed

lemma binary64_mono_pos:
  assumes "0 < x" "x \<le> y"
  shows "binary64 x \<le> binary64 y"
proof -
  have y: "0 < y" using assms by linarith
  have "expo x \<le> expo y" using assms by (rule expo_mono)
  then consider "expo x = expo y" | "expo x < expo y" by linarith
  then show ?thesis
  proof cases
    case 1
    then have u: "ulp x = ulp y" by (simp add: ulp_def)
    have "x / ulp y \<le> y / ulp y"
      using assms(2) ulp_pos [of y] by (simp add: divide_right_mono)
    then have "rne (x / ulp y) \<le> rne (y / ulp y)" by (rule rne_mono)
    then have "(of_int (rne (x / ulp y)) :: real) \<le> of_int (rne (y / ulp y))" by simp
    then have "of_int (rne (x / ulp y)) * ulp y \<le> of_int (rne (y / ulp y)) * ulp y"
      using ulp_pos [of y] by (simp add: mult_right_mono)
    then show ?thesis
      using assms(1) y by (simp add: binary64_pos u)
  next
    case 2
    have "rne (\<bar>x\<bar> / ulp x) \<le> 2 ^ 53"
      using rne_abs_bound [of x] assms(1) by simp
    then have "(of_int (rne (x / ulp x)) :: real) \<le> of_int (2 ^ 53)"
      using assms(1) by (simp only: of_int_le_iff abs_of_pos)
    then have "of_int (rne (x / ulp x)) * ulp x \<le> of_int (2 ^ 53) * ulp x"
      using ulp_pos [of x] by (simp add: mult_right_mono)
    also have "\<dots> = 2 powr (of_int (expo x) + 1)"
      using powr_top [of "of_int (expo x)"] by (simp add: ulp_def)
    also have "\<dots> \<le> 2 powr of_int (expo y)"
      using 2 by simp
    finally have low: "binary64 x \<le> 2 powr of_int (expo y)"
      using assms(1) by (simp add: binary64_pos)
    have "- 1022 < expo y" using 2 expo_ge [of x] by linarith
    then have "2 powr of_int (expo y) \<le> \<bar>y\<bar>" using y normal_ge [of y] by simp
    then have "2 ^ 52 * ulp y \<le> y"
      using y powr_52 [of "of_int (expo y)"] by (simp add: ulp_def)
    then have "of_int (2 ^ 52) \<le> y / ulp y"
      using ulp_pos [of y] by (simp add: field_simps)
    then have "2 ^ 52 \<le> rne (y / ulp y)" by (rule rne_ge)
    then have "(of_int (2 ^ 52) :: real) \<le> of_int (rne (y / ulp y))"
      by (simp only: of_int_le_iff)
    then have "of_int (2 ^ 52) * ulp y \<le> of_int (rne (y / ulp y)) * ulp y"
      using ulp_pos [of y] by (simp add: mult_right_mono)
    moreover have "of_int (2 ^ 52) * ulp y = 2 powr of_int (expo y)"
      using powr_52 [of "of_int (expo y)"] by (simp add: ulp_def)
    ultimately have "2 powr of_int (expo y) \<le> binary64 y"
      using y by (simp add: binary64_pos)
    then show ?thesis using low by linarith
  qed
qed

lemma binary64_mono:
  assumes "x \<le> y"
  shows "binary64 x \<le> binary64 y"
proof -
  consider "0 < x" | "x \<le> 0" "0 \<le> y" | "y < 0" using assms by linarith
  then show ?thesis
  proof cases
    case 1
    then show ?thesis using assms by (rule binary64_mono_pos)
  next
    case 2
    have "0 \<le> binary64 (- x)" using 2(1) by (simp add: binary64_nonneg)
    then have "binary64 x \<le> 0" by (simp add: binary64_minus)
    moreover have "0 \<le> binary64 y" using 2(2) by (rule binary64_nonneg)
    ultimately show ?thesis by linarith
  next
    case 3
    then have "binary64 (- y) \<le> binary64 (- x)"
      using assms by (intro binary64_mono_pos) simp_all
    then show ?thesis by (simp add: binary64_minus)
  qed
qed

lemma representable_int:
  assumes "\<bar>n\<bar> \<le> 2 ^ 53"
  shows "representable (of_int n)"
proof (cases "\<bar>n\<bar> < 2 ^ 53")
  case True
  have "- 1022 \<le> (52::int)" "(of_int n :: real) = of_int n * 2 powr (of_int 52 - 52)"
    by simp_all
  with True show ?thesis by (rule representableI)
next
  case False
  then have "\<bar>n\<bar> = 2 ^ 53" using assms by linarith
  then have "n = sgn n * 2 ^ 53" by (simp add: abs_if sgn_if split: if_splits)
  then have "(of_int n :: real) = of_int (sgn n * 2 ^ 52) * 2 powr (of_int 53 - 52)"
    by (simp add: sgn_if split: if_splits)
  moreover have "\<bar>sgn n * 2 ^ 52\<bar> < (2::int) ^ 53" by (simp add: sgn_if)
  moreover have "- 1022 \<le> (53::int)" by simp
  ultimately show ?thesis by (intro representableI [of "sgn n * 2 ^ 52" 53])
qed

lemma representable_double:
  assumes "representable x"
  shows "representable (x * 2)"
proof -
  from assms obtain k j where k: "\<bar>k\<bar> < 2 ^ 53" and j: "- 1022 \<le> j"
    and x: "x = of_int k * 2 powr (of_int j - 52)"
    unfolding representable_def by blast
  have "x * 2 = of_int k * 2 powr (of_int (j + 1) - 52)"
    using powr_double [of "of_int j"] by (simp add: x)
  moreover have "- 1022 \<le> j + 1" using j by simp
  ultimately show ?thesis unfolding representable_def using k by blast
qed

lemma rounding_binary64: "rounding binary64"
  unfolding rounding_def
proof (intro conjI allI impI)
  fix x y :: real
  assume "x \<le> y"
  then show "binary64 x \<le> binary64 y" by (rule binary64_mono)
next
  fix x :: real
  show "binary64 (binary64 x) = binary64 x"
    using binary64_representable by (rule representable_fixed)
next
  fix n :: int
  assume "\<bar>n\<bar> \<le> 2 ^ 53"
  then have "representable (of_int n)" by (rule representable_int)
  then show "binary64 (of_int n) = of_int n" by (rule representable_fixed)
next
  fix x :: real
  assume "binary64 x = x \<and> \<bar>x\<bar> \<le> 1"
  then have "representable x" using binary64_representable [of x] by simp
  then have "representable (x * 2)" by (rule representable_double)
  then show "binary64 (x * 2) = x * 2" by (rule representable_fixed)
qed

lemma binary64_nearest:
  assumes "0 < x" "2 powr of_int e \<le> x" "x < 2 powr (of_int e + 1)" "- 1022 \<le> e"
    and "of_int n - 1/2 < x / 2 powr (of_int e - 52)"
    and "x / 2 powr (of_int e - 52) < of_int n + 1/2"
  shows "binary64 x = of_int n * 2 powr (of_int e - 52)"
proof -
  have "expo x = e" using assms(1-4) by (intro expo_binade) simp_all
  then have u: "ulp x = 2 powr (of_int e - 52)" by (simp add: ulp_def)
  have "rne (x / ulp x) = n" unfolding u using assms(5,6) by (rule rne_nearest)
  then show ?thesis using assms(1) by (simp add: binary64_pos u)
qed

lemma binary64_numeral:
  "numeral w \<le> (2::int) ^ 53 \<Longrightarrow> binary64 (numeral w) = numeral w"
proof -
  assume "numeral w \<le> (2::int) ^ 53"
  then have "\<bar>numeral w :: int\<bar> \<le> 2 ^ 53" by simp
  then have "representable (of_int (numeral w))" by (rule representable_int)
  then have "binary64 (of_int (numeral w)) = of_int (numeral w)" by (rule representable_fixed)
  then show ?thesis by simp
qed

lemma binary64_one: "binary64 1 = 1"
  using representable_fixed [OF representable_int [of 1]] by simp

lemma powr_neg_1: "(2::real) powr (of_int 51 - 52) = 1 / 2"
proof -
  have "(2::real) powr (of_int 51 - 52) = 2 powr (- 1)" by simp
  also have "\<dots> = inverse (2 powr 1)" by (rule powr_minus)
  also have "\<dots> = 1 / 2" by (simp add: inverse_eq_divide)
  finally show ?thesis .
qed

lemma powr_neg_53: "(2::real) powr (of_int (- 1) - 52) = 1 / 2 ^ 53"
proof -
  have "(2::real) powr (of_int (- 1) - 52) = 2 powr (- 53)" by simp
  also have "\<dots> = inverse (2 powr 53)" by (rule powr_minus)
  also have "\<dots> = 1 / 2 ^ 53" by (simp add: inverse_eq_divide)
  finally show ?thesis .
qed

lemma powr_neg_46: "(2::real) powr (of_int 6 - 52) = 1 / 2 ^ 46"
proof -
  have "(2::real) powr (of_int 6 - 52) = 2 powr (- 46)" by simp
  also have "\<dots> = inverse (2 powr 46)" by (rule powr_minus)
  also have "\<dots> = 1 / 2 ^ 46" by (simp add: inverse_eq_divide)
  finally show ?thesis .
qed

lemma binary64_half: "binary64 (1/2) = 1/2"
proof -
  have k: "\<bar>1\<bar> < (2::int) ^ 53" by simp
  have j: "- 1022 \<le> (51::int)" by simp
  have v: "(1/2 :: real) = of_int 1 * 2 powr (of_int 51 - 52)"
    unfolding powr_neg_1 by simp
  have "representable (1/2)" using k j v by (rule representableI)
  then show ?thesis by (rule representable_fixed)
qed

lemma binary64_below_one: "binary64 (1 - 1 / 2 ^ 53) = 1 - 1 / 2 ^ 53"
proof -
  have k: "\<bar>2 ^ 53 - 1\<bar> < (2::int) ^ 53" by simp
  have j: "- 1022 \<le> (- 1 :: int)" by simp
  have v: "(1 - 1 / 2 ^ 53 :: real) = of_int (2 ^ 53 - 1) * 2 powr (of_int (- 1) - 52)"
    unfolding powr_neg_53 by simp
  have "representable (1 - 1 / 2 ^ 53)" using k j v by (rule representableI)
  then show ?thesis by (rule representable_fixed)
qed

lemma binary64_below_89: "binary64 (87 + (1 - 1 / 2 ^ 53) * 2) = 89"
proof -
  let ?x = "87 + (1 - 1 / 2 ^ 53) * 2 :: real"
  have p1: "0 < ?x" by simp
  have p2: "2 powr of_int 6 \<le> ?x" by simp
  have p3: "?x < 2 powr (of_int 6 + 1)" by simp
  have p4: "- 1022 \<le> (6::int)" by simp
  have p5: "of_int (89 * 2 ^ 46) - 1/2 < ?x / 2 powr (of_int 6 - 52)"
    unfolding powr_neg_46 by simp
  have p6: "?x / 2 powr (of_int 6 - 52) < of_int (89 * 2 ^ 46) + 1/2"
    unfolding powr_neg_46 by simp
  have "binary64 ?x = of_int (89 * 2 ^ 46) * 2 powr (of_int 6 - 52)"
    using p1 p2 p3 p4 p5 p6 by (rule binary64_nearest)
  also have "\<dots> = 89"
    unfolding powr_neg_46 by simp
  finally show ?thesis .
qed

subsection \<open>The score\<close>

lemma rounding_exact: "rounding fl \<Longrightarrow> fl 0 = 0 \<and> fl 87 = 87 \<and> fl 95 = 95"
proof -
  assume r: "rounding fl"
  have "fl (of_int 0) = of_int 0" "fl (of_int 87) = of_int 87" "fl (of_int 95) = of_int 95"
    using r unfolding rounding_def by (simp_all del: of_int_numeral of_int_0)
  then show ?thesis by simp
qed

lemma increment_bounds:
  assumes "rounding fl" "isRandom fl r"
  shows "fl (r * 2) = r * 2" "0 \<le> fl (r * 2)" "fl (r * 2) < 2"
proof -
  have "fl r = r \<and> \<bar>r\<bar> \<le> 1" using assms(2) by (simp add: isRandom_def)
  then show "fl (r * 2) = r * 2" using assms(1) by (simp add: rounding_def)
  then show "0 \<le> fl (r * 2)" "fl (r * 2) < 2" using assms(2) by (simp_all add: isRandom_def)
qed

lemma tick_score:
  assumes "rounding fl" "isRandom fl r" "score_ok fl (optimizationScore s)"
  shows "score_ok fl (optimizationScore (tick fl r s))"
    and "optimizationScore s \<le> optimizationScore (tick fl r s)"
proof -
  let ?s = "optimizationScore s"
  let ?x = "fl (?s + fl (r * 2))"
  have mono: "\<And>x y. x \<le> y \<Longrightarrow> fl x \<le> fl y" and idem: "\<And>x. fl (fl x) = fl x"
    using assms(1) by (simp_all add: rounding_def)
  have "?s \<le> ?s + fl (r * 2)" using increment_bounds(2) [OF assms(1,2)] by simp
  then have "fl ?s \<le> ?x" by (rule mono)
  then have ge: "?s \<le> ?x" using assms(3) by (simp add: score_ok_def)
  have new: "optimizationScore (tick fl r s) = min 95 ?x" by (simp add: tick_def)
  show "optimizationScore s \<le> optimizationScore (tick fl r s)"
    using ge assms(3) by (simp add: new score_ok_def)
  have "fl (min 95 ?x) = min 95 ?x"
    using rounding_exact [OF assms(1)] idem by (simp add: min_def)
  then show "score_ok fl (optimizationScore (tick fl r s))"
    using ge assms(3) by (simp add: new score_ok_def)
qed

lemma foldl_tick_score:
  assumes "rounding fl" "\<forall>r\<in>set randoms. isRandom fl r" "score_ok fl (optimizationScore s)"
  shows "score_ok fl (optimizationScore (foldl (\<lambda>prev random. tick fl random prev) s randoms))"
  using assms(2,3)
proof (induction randoms arbitrary: s)
  case Nil
  then show ?case by simp
next
  case (Cons r rs)
  have "score_ok fl (optimizationScore (tick fl r s))"
    using tick_score(1) [OF assms(1)] Cons.prems by simp
  then show ?case using Cons.IH Cons.prems by simp
qed

lemma statsAfter_score:
  assumes "rounding fl" "\<forall>r\<in>set randoms. isRandom fl r"
  shows "score_ok fl (optimizationScore (statsAfter fl randoms))"
proof -
  have "score_ok fl (optimizationScore mockUser_stats)"
    using rounding_exact [OF assms(1)] by (simp add: score_ok_def mockUser_stats_def)
  then show ?thesis unfolding statsAfter_def by (rule foldl_tick_score [OF assms])
qed

text \<open>
  C8. The score starts at 87. Whatever doubles in \<open>[0, 1)\<close> \<open>Math.random()\<close>
  returns, the score after any number of ticks lies in \<open>[87, 95]\<close>, and a further tick
  does not decrease it: the tick maps the score \<open>s\<close> to \<open>min(95, s + r)\<close>, the sum
  rounded to a double, where \<open>r\<close> is twice the random number and \<open>0 \<le> r < 2\<close>. This
  holds for every rounding, and the rounding of doubles is one.
\<close>

theorem optimizationScore_bounded:
  assumes "rounding fl" "\<forall>r\<in>set randoms. isRandom fl r" "isRandom fl random"
  shows "optimizationScore (statsAfter fl []) = 87
    \<and> 87 \<le> optimizationScore (statsAfter fl randoms)
    \<and> optimizationScore (statsAfter fl randoms) \<le> 95
    \<and> statsAfter fl (randoms @ [random]) = tick fl random (statsAfter fl randoms)
    \<and> optimizationScore (statsAfter fl randoms)
         \<le> optimizationScore (statsAfter fl (randoms @ [random]))
    \<and> optimizationScore (statsAfter fl (randoms @ [random]))
         = min 95 (fl (optimizationScore (statsAfter fl randoms) + random * 2))
    \<and> 0 \<le> random * 2 \<and> random * 2 < 2"
proof -
  have ok: "score_ok fl (optimizationScore (statsAfter fl randoms))"
    using assms(1,2) by (rule statsAfter_score)
  have snoc: "statsAfter fl (randoms @ [random]) = tick fl random (statsAfter fl randoms)"
    by (simp add: statsAfter_def)
  have up: "optimizationScore (statsAfter fl randoms)
         \<le> optimizationScore (tick fl random (statsAfter fl randoms))"
    using assms(1,3) ok by (rule tick_score(2))
  have inc: "fl (random * 2) = random * 2"
    using assms(1,3) by (rule increment_bounds(1))
  show ?thesis
    using ok up inc assms(3)
    by (simp add: snoc score_ok_def tick_def isRandom_def statsAfter_def mockUser_stats_def)
qed

theorem optimizationScore_bounded_witness:
  "optimizationScore (statsAfter binary64 [1 - 1 / 2 ^ 53]) = 89
   \<and> optimizationScore (statsAfter binary64 [1/2, 1/2, 1/2, 1/2, 1/2, 1/2, 1/2, 1/2]) = 95
   \<and> optimizationScore (statsAfter binary64 [1/2, 1/2, 1/2, 1/2, 1/2, 1/2, 1/2, 1/2, 1/2]) = 95"
proof -
  let ?eight = "[1/2, 1/2, 1/2, 1/2, 1/2, 1/2, 1/2, 1/2 :: real]"
  have below: "isRandom binary64 (1 - 1 / 2 ^ 53)"
    unfolding isRandom_def using binary64_below_one by simp
  have half: "isRandom binary64 (1/2)"
    unfolding isRandom_def using binary64_half by simp
  have none: "\<forall>r\<in>set []. isRandom binary64 r"
    by simp
  have halves: "\<forall>r\<in>set ?eight. isRandom binary64 r"
    using half by simp
  have "optimizationScore (statsAfter binary64 ([] @ [1 - 1 / 2 ^ 53]))
      = min 95 (binary64 (optimizationScore (statsAfter binary64 []) + (1 - 1 / 2 ^ 53) * 2))
    \<and> optimizationScore (statsAfter binary64 []) = 87"
    using optimizationScore_bounded [OF rounding_binary64 none below] by blast
  then have first: "optimizationScore (statsAfter binary64 [1 - 1 / 2 ^ 53]) = 89"
    using binary64_below_89 by simp
  have eight: "optimizationScore (statsAfter binary64 ?eight) = 95"
    by (simp add: statsAfter_def tick_def mockUser_stats_def binary64_one binary64_numeral)
  have "optimizationScore (statsAfter binary64 (?eight @ [1/2]))
      = min 95 (binary64 (optimizationScore (statsAfter binary64 ?eight) + 1/2 * 2))"
    using optimizationScore_bounded [OF rounding_binary64 halves half] by blast
  then have nine: "optimizationScore (statsAfter binary64 (?eight @ [1/2])) = 95"
    by (simp add: eight binary64_numeral)
  show ?thesis
    using first eight nine by simp
qed

section \<open>Properties of the profiles policies\<close>

lemma owner_expr_true: "owner_expr (Some u) row = Some True \<longleftrightarrow> user_id row = Some u"
  by (cases "user_id row") (auto simp: owner_expr_def)

lemma owner_expr_anonymous: "owner_expr None row = None"
  by (simp add: owner_expr_def)

text \<open>
  C7, as the policies have it. Where row security is enforced, for a requester with auth
  uid \<open>u\<close>: a row can be selected exactly when its \<open>user_id\<close> is \<open>u\<close>; a row can be
  inserted exactly when its \<open>user_id\<close> is \<open>u\<close>; a row can be updated exactly when its
  \<open>user_id\<close> is \<open>u\<close> before and after the update, so an update that keeps \<open>user_id\<close>
  succeeds exactly when the row's \<open>user_id\<close> is \<open>u\<close>. Hence no user reads, inserts or
  modifies a row whose \<open>user_id\<close> is not their own, and without a session nothing
  passes.
\<close>

theorem profiles_owner_only:
  assumes "enforced"
  shows "(select_allowed enforced (Some u) row \<longleftrightarrow> user_id row = Some u)
   \<and> (insert_allowed enforced (Some u) row \<longleftrightarrow> user_id row = Some u)
   \<and> (update_allowed enforced (Some u) row new \<longleftrightarrow>
        user_id row = Some u \<and> user_id new = Some u)
   \<and> (user_id new = user_id row \<longrightarrow>
        (update_allowed enforced (Some u) row new \<longleftrightarrow> user_id row = Some u))
   \<and> (user_id row \<noteq> Some u \<longrightarrow>
        \<not> select_allowed enforced (Some u) row \<and> \<not> update_allowed enforced (Some u) row new
        \<and> \<not> insert_allowed enforced (Some u) row)
   \<and> \<not> select_allowed enforced None row \<and> \<not> insert_allowed enforced None row
   \<and> \<not> update_allowed enforced None row new"
  using assms
  by (auto simp: select_allowed_def insert_allowed_def update_allowed_def row_visible_def
      row_admitted_def profiles_policies_def passes_def check_expr_def owner_expr_true
      owner_expr_anonymous)

theorem profiles_owner_only_witness:
  "select_allowed True (Some 7) sample_profile
   \<and> \<not> select_allowed True (Some 8) sample_profile
   \<and> update_allowed True (Some 7) sample_profile (sample_profile\<lparr> skills := Some ''[]'' \<rparr>)
   \<and> \<not> update_allowed True (Some 8) sample_profile (sample_profile\<lparr> user_id := Some 8 \<rparr>)
   \<and> \<not> insert_allowed True (Some 8) sample_profile
   \<and> \<not> insert_allowed True (Some 7) (sample_profile\<lparr> user_id := None \<rparr>)"
  using profiles_owner_only [of True 7 sample_profile "sample_profile\<lparr> skills := Some ''[]'' \<rparr>"]
    profiles_owner_only [of True 8 sample_profile "sample_profile\<lparr> user_id := Some 8 \<rparr>"]
    profiles_owner_only [of True 7 "sample_profile\<lparr> user_id := None \<rparr>" sample_profile]
  by (simp add: sample_profile_def)

text \<open>
  C7, as the specification states it, fails for \<open>UPDATE\<close>: with row security enforced,
  the owner of a row (auth uid 7, the row's \<open>user_id\<close>) cannot update it to carry another
  user's \<open>user_id\<close>, although the uid equals the \<open>user_id\<close> of the row updated.
\<close>

theorem profiles_update_counterexample:
  "user_id sample_profile = Some 7
   \<and> \<not> update_allowed True (Some 7) sample_profile (sample_profile\<lparr> user_id := Some 8 \<rparr>)"
  by (simp add: update_allowed_def row_visible_def row_admitted_def profiles_policies_def
      passes_def check_expr_def owner_expr_def sample_profile_def)

end
